theory Spec2Isabelle
  imports Complex_Main
begin

section \<open>Numbers and exceptions\<close>

text \<open>
  The program computes with Python numbers (the integer literals of the shape tables, the
  float \<open>0.5\<close>, the results of \<open>sin\<close>, \<open>cos\<close>, \<open>atan\<close> and of the square root).
  They are idealised as the reals: rounding, overflow and the special float values are
  not part of this development. Every exception the Python code can raise is a value of
  \<open>error\<close>.
\<close>

datatype error =
    ZeroDivisionError
  | ValueError
  | KeyError
  | IndexError
  | TypeError
  | AttributeError
  | InvalidInput

section \<open>The linear algebra library (module \<open>matrix\<close>)\<close>

text \<open>
  \<open>shapes.py\<close> and \<open>main.py\<close> import \<open>Vector\<close> and \<open>Matrix\<close> from a module
  \<open>matrix\<close> whose file is not among the sources. A vector has two or three components;
  the two sizes are kept apart as two types, and a matrix is the tuple of its rows.
\<close>

datatype vec3 = V3 (vx: real) (vy: real) (vz: real)

datatype vec2 = V2 (ux: real) (uy: real)

datatype mat33 = M33 vec3 vec3 vec3

datatype mat23 = M23 vec3 vec3

text \<open>Modelled from the spec: \<open>Vector.__add__\<close> of the absent module \<open>matrix\<close>
  ("add two vectors of equal dimensionality element-wise").\<close>

fun Vector3_add :: "vec3 \<Rightarrow> vec3 \<Rightarrow> vec3" where
  "Vector3_add (V3 a b c) (V3 x y z) = V3 (a + x) (b + y) (c + z)"

text \<open>Modelled from the spec: \<open>Vector.__add__\<close> of the absent module \<open>matrix\<close>, on
  two-component vectors.\<close>

fun Vector2_add :: "vec2 \<Rightarrow> vec2 \<Rightarrow> vec2" where
  "Vector2_add (V2 a b) (V2 x y) = V2 (a + x) (b + y)"

text \<open>Modelled from the spec: \<open>Vector.__sub__\<close> of the absent module \<open>matrix\<close>
  ("subtract two vectors of equal dimensionality element-wise").\<close>

fun Vector3_sub :: "vec3 \<Rightarrow> vec3 \<Rightarrow> vec3" where
  "Vector3_sub (V3 a b c) (V3 x y z) = V3 (a - x) (b - y) (c - z)"

text \<open>Modelled from the spec: \<open>Vector.__mul__\<close> of the absent module \<open>matrix\<close>
  ("multiply by a scalar: element-wise scale").\<close>

fun Vector3_mul :: "vec3 \<Rightarrow> real \<Rightarrow> vec3" where
  "Vector3_mul (V3 a b c) k = V3 (a * k) (b * k) (c * k)"

text \<open>Modelled from the spec: \<open>Vector.__mul__\<close> of the absent module \<open>matrix\<close>, on
  two-component vectors.\<close>

fun Vector2_mul :: "vec2 \<Rightarrow> real \<Rightarrow> vec2" where
  "Vector2_mul (V2 a b) k = V2 (a * k) (b * k)"

text \<open>Modelled from the spec: \<open>Vector.length\<close> of the absent module \<open>matrix\<close>
  ("Euclidean norm = square root of the sum of squared components").\<close>

fun Vector3_length :: "vec3 \<Rightarrow> real" where
  "Vector3_length (V3 a b c) = sqrt (a * a + b * b + c * c)"

text \<open>Modelled from the spec: the dot product of a matrix row with a vector, the step of
  \<open>Matrix.__mul__\<close> of the absent module \<open>matrix\<close> ("for each row, compute the dot
  product of that row with the vector's components").\<close>

fun dot3 :: "vec3 \<Rightarrow> vec3 \<Rightarrow> real" where
  "dot3 (V3 a b c) (V3 x y z) = a * x + b * y + c * z"

text \<open>Modelled from the spec: \<open>Matrix.__mul__\<close> of the absent module \<open>matrix\<close> for a
  3x3 matrix and a vector ("result vector has one component per row").\<close>

fun Matrix33_mul_vec :: "mat33 \<Rightarrow> vec3 \<Rightarrow> vec3" where
  "Matrix33_mul_vec (M33 r1 r2 r3) v = V3 (dot3 r1 v) (dot3 r2 v) (dot3 r3 v)"

text \<open>Modelled from the spec: \<open>Matrix.__mul__\<close> of the absent module \<open>matrix\<close> for a
  2x3 matrix and a vector.\<close>

fun Matrix23_mul_vec :: "mat23 \<Rightarrow> vec3 \<Rightarrow> vec2" where
  "Matrix23_mul_vec (M23 r1 r2) v = V2 (dot3 r1 v) (dot3 r2 v)"

text \<open>Modelled from the spec: \<open>Matrix.__mul__\<close> of the absent module \<open>matrix\<close> for two
  3x3 matrices (the row-by-column product that \<open>Camera.turn\<close> uses).\<close>

fun Matrix33_mul :: "mat33 \<Rightarrow> mat33 \<Rightarrow> mat33" where
  "Matrix33_mul (M33 r1 r2 r3) (M33 (V3 a b c) (V3 d e f) (V3 g h i)) =
     M33 (V3 (dot3 r1 (V3 a d g)) (dot3 r1 (V3 b e h)) (dot3 r1 (V3 c f i)))
         (V3 (dot3 r2 (V3 a d g)) (dot3 r2 (V3 b e h)) (dot3 r2 (V3 c f i)))
         (V3 (dot3 r3 (V3 a d g)) (dot3 r3 (V3 b e h)) (dot3 r3 (V3 c f i)))"

text \<open>Modelled from the spec: \<open>Matrix.det\<close> of the absent module \<open>matrix\<close>
  ("det = a(ei - fh) - b(di - fg) + c(dh - eg), where the matrix rows are (a,b,c),
  (d,e,f), (g,h,i)").\<close>

fun det :: "mat33 \<Rightarrow> real" where
  "det (M33 (V3 a b c) (V3 d e f) (V3 g h i)) =
     a * (e * i - f * h) - b * (d * i - f * g) + c * (d * h - e * g)"

section \<open>shapes.py\<close>

definition v0 :: vec3 where
  "v0 = V3 0 0 0"

definition m1 :: mat33 where
  "m1 = M33 (V3 1 0 0) (V3 0 1 0) (V3 0 0 1)"

text \<open>
  An element of \<open>lines\<close> is a Python set of point indices (the class tables, and every
  line \<open>optimise\<close> writes) or a tuple of two (the lines \<open>ShapeCombination\<close> collects).
\<close>

datatype edge = ESet "nat set" | ETuple nat nat

text \<open>
  The attributes of a shape object. No class of \<open>shapes.py\<close> assigns \<open>faces\<close>, which
  \<open>Window.draw\<close> reads: \<open>faces = None\<close> is an object without the attribute.
\<close>

record shape =
  points :: "vec3 list"
  lines :: "edge list"
  faces :: "nat list list option"

datatype shape_class = Shape | Cube | SquarePyramid

fun DEFAULT_POINTS :: "shape_class \<Rightarrow> vec3 list" where
  "DEFAULT_POINTS Shape = [v0]"
| "DEFAULT_POINTS Cube =
     [V3 0 0 0, V3 0 0 1, V3 1 0 1, V3 1 0 0,
      V3 0 1 0, V3 0 1 1, V3 1 1 1, V3 1 1 0]"
| "DEFAULT_POINTS SquarePyramid =
     [V3 0 0 0, V3 0 0 1, V3 1 0 1, V3 1 0 0,
      V3 (1/2) 1 (1/2)]"

fun LINES :: "shape_class \<Rightarrow> edge list" where
  "LINES Shape = []"
| "LINES Cube =
     [ESet {0, 1}, ESet {1, 2}, ESet {2, 3}, ESet {3, 0},
      ESet {4, 5}, ESet {5, 6}, ESet {6, 7}, ESet {7, 4},
      ESet {0, 4}, ESet {1, 5}, ESet {2, 6}, ESet {3, 7}]"
| "LINES SquarePyramid =
     [ESet {0, 1}, ESet {1, 2}, ESet {2, 3}, ESet {3, 0},
      ESet {0, 4}, ESet {1, 4}, ESet {2, 4}, ESet {3, 4}]"

text \<open>\<open>reset\<close> on the fresh object of a constructor: the class tables, copied.\<close>

definition reset :: "shape_class \<Rightarrow> shape" where
  "reset c = \<lparr>points = DEFAULT_POINTS c, lines = LINES c, faces = None\<rparr>"

text \<open>
  \<open>move_to\<close>: the comprehension reads \<open>self.cur\<close> (\<open>self.points[0]\<close>) once per point,
  while \<open>self.points\<close> is still the old list; over an empty list it reads nothing.
\<close>

definition move_to :: "vec3 \<Rightarrow> shape \<Rightarrow> shape" where
  "move_to p s =
     (case points s of
        [] \<Rightarrow> s\<lparr>points := []\<rparr>
      | c # _ \<Rightarrow> s\<lparr>points := map (\<lambda>v. Vector3_add (Vector3_sub v c) p) (points s)\<rparr>)"

definition move_by :: "vec3 \<Rightarrow> shape \<Rightarrow> shape" where
  "move_by p s = s\<lparr>points := map (\<lambda>v. Vector3_add v p) (points s)\<rparr>"

text \<open>
  The inner loop of \<open>optimise\<close>: the index \<open>j\<close> of the first vector of \<open>seen_vects\<close>
  whose \<open>value\<close> equals that of \<open>v\<close>; \<open>None\<close> is the loop's \<open>else\<close> branch.
\<close>

fun find_seen :: "vec3 \<Rightarrow> vec3 list \<Rightarrow> nat \<Rightarrow> nat option" where
  "find_seen v [] j = None"
| "find_seen v (w # ws) j = (if v = w then Some j else find_seen v ws (Suc j))"

text \<open>
  The outer loop of \<open>optimise\<close> over \<open>enumerate(self.points)\<close>, from index \<open>i\<close> on, with
  the loop's three variables. \<open>offset + len(seen_vects) = i\<close> holds at the start and after every step (it is
  the hypothesis that lemma \<open>scan_points_spec\<close> carries through the loop), so the
  difference \<open>i - offset\<close> is that of the integers.
\<close>

fun scan_points ::
  "vec3 list \<Rightarrow> nat \<Rightarrow> vec3 list \<Rightarrow> (nat \<rightharpoonup> nat) \<Rightarrow> nat \<Rightarrow> vec3 list \<times> (nat \<rightharpoonup> nat)" where
  "scan_points [] i seen_vects changes offset = (seen_vects, changes)"
| "scan_points (v # vs) i seen_vects changes offset =
     (case find_seen v seen_vects 0 of
        Some j \<Rightarrow> scan_points vs (Suc i) seen_vects (changes(i \<mapsto> j)) (Suc offset)
      | None \<Rightarrow> scan_points vs (Suc i) (seen_vects @ [v]) (changes(i \<mapsto> i - offset)) offset)"

text \<open>
  \<open>for i, j in ...\<close> over one element of \<open>lines\<close>: a tuple gives its two components, a set
  must hold exactly two indices and raises \<open>ValueError\<close> otherwise. The order in which
  CPython yields the two elements of a set is fixed by their hashes; the model yields the
  smaller first, and nothing below depends on the order.
\<close>

fun unpack2 :: "edge \<Rightarrow> error + nat \<times> nat" where
  "unpack2 (ETuple a b) = Inr (a, b)"
| "unpack2 (ESet s) = (if card s = 2 then Inr (Min s, Max s) else Inl ValueError)"

text \<open>
  \<open>[{changes[i], changes[j]} for i,j in self.lines]\<close>: the first line that does not
  unpack, or whose index is no key of \<open>changes\<close>, ends the comprehension with its
  exception.
\<close>

fun rewrite_lines :: "(nat \<rightharpoonup> nat) \<Rightarrow> edge list \<Rightarrow> error + edge list" where
  "rewrite_lines changes [] = Inr []"
| "rewrite_lines changes (l # ls) =
     (case unpack2 l of
        Inl e \<Rightarrow> Inl e
      | Inr (i, j) \<Rightarrow>
          (case changes i of
             None \<Rightarrow> Inl KeyError
           | Some a \<Rightarrow>
               (case changes j of
                  None \<Rightarrow> Inl KeyError
                | Some b \<Rightarrow>
                    (case rewrite_lines changes ls of
                       Inl e \<Rightarrow> Inl e
                     | Inr ls' \<Rightarrow> Inr (ESet {a, b} # ls')))))"

text \<open>The last loop of \<open>optimise\<close>: \<open>new_lines\<close> collects each line not yet in it.\<close>

fun remove_duplicate_lines :: "edge list \<Rightarrow> edge list \<Rightarrow> edge list" where
  "remove_duplicate_lines [] new_lines = new_lines"
| "remove_duplicate_lines (l # ls) new_lines =
     (if l \<notin> set new_lines then remove_duplicate_lines ls (new_lines @ [l])
      else remove_duplicate_lines ls new_lines)"

text \<open>
  A method that mutates the shape returns the attributes the object holds when the call
  ends, and the exception the call raised, if any. \<open>optimise\<close> assigns \<open>self.points\<close>
  before it rewrites the lines, so a call that raises there has replaced the points and
  left the lines.
\<close>

definition optimise :: "shape \<Rightarrow> shape \<times> error option" where
  "optimise s =
     (case scan_points (points s) 0 [] Map.empty 0 of
        (seen_vects, changes) \<Rightarrow>
          (case rewrite_lines changes (lines s) of
             Inl e \<Rightarrow> (s\<lparr>points := seen_vects\<rparr>, Some e)
           | Inr ls \<Rightarrow>
               (s\<lparr>points := seen_vects, lines := remove_duplicate_lines ls []\<rparr>, None)))"

definition transform :: "mat33 \<Rightarrow> shape \<Rightarrow> shape \<times> error option" where
  "transform m s =
     (let s1 = s\<lparr>points := map (Matrix33_mul_vec m) (points s)\<rparr>
      in if det m = 0 then optimise s1 else (s1, None))"

text \<open>
  \<open>Shape.__init__\<close>, inherited by \<open>Cube\<close> and \<open>SquarePyramid\<close>. A constructor that raises
  yields no object.
\<close>

definition Shape_init :: "shape_class \<Rightarrow> vec3 \<Rightarrow> mat33 \<Rightarrow> error + shape" where
  "Shape_init c shift trans_m =
     (case transform trans_m (move_to shift (reset c)) of
        (s, None) \<Rightarrow> Inr s
      | (s, Some e) \<Rightarrow> Inl e)"

text \<open>\<open>[(i1+offset, i2+offset) for i1,i2 in shape.lines]\<close>\<close>

fun offset_lines :: "nat \<Rightarrow> edge list \<Rightarrow> error + edge list" where
  "offset_lines offset [] = Inr []"
| "offset_lines offset (l # ls) =
     (case unpack2 l of
        Inl e \<Rightarrow> Inl e
      | Inr (i1, i2) \<Rightarrow>
          (case offset_lines offset ls of
             Inl e \<Rightarrow> Inl e
           | Inr ls' \<Rightarrow> Inr (ETuple (i1 + offset) (i2 + offset) # ls')))"

text \<open>The loop of \<open>ShapeCombination.__init__\<close> over the child shapes.\<close>

fun add_shapes :: "shape list \<Rightarrow> shape \<Rightarrow> error + shape" where
  "add_shapes [] self = Inr self"
| "add_shapes (sh # shs) self =
     (case offset_lines (length (points self)) (lines sh) of
        Inl e \<Rightarrow> Inl e
      | Inr ls \<Rightarrow>
          add_shapes shs (self\<lparr>points := points self @ points sh, lines := lines self @ ls\<rparr>))"

text \<open>
  \<open>ShapeCombination.__init__\<close>: \<open>reset\<close> finds the tables of the base class (one point
  \<open>v0\<close>, no line), the children are appended, and \<open>optimise\<close> always runs at the end.
\<close>

definition ShapeCombination_init :: "shape list \<Rightarrow> vec3 \<Rightarrow> mat33 \<Rightarrow> error + shape" where
  "ShapeCombination_init shapes shift trans_m =
     (case add_shapes shapes (reset Shape) of
        Inl e \<Rightarrow> Inl e
      | Inr s0 \<Rightarrow>
          (case transform trans_m (move_to shift s0) of
             (s1, Some e) \<Rightarrow> Inl e
           | (s1, None) \<Rightarrow>
               (case optimise s1 of
                  (s2, Some e) \<Rightarrow> Inl e
                | (s2, None) \<Rightarrow> Inr s2)))"

section \<open>main.py\<close>

definition z_rotator :: "real \<Rightarrow> mat33" where
  "z_rotator angle =
     M33 (V3 (cos angle) (- sin angle) 0)
         (V3 (sin angle) (cos angle) 0)
         (V3 0 0 1)"

definition x_rotator :: "real \<Rightarrow> mat33" where
  "x_rotator angle =
     M33 (V3 1 0 0)
         (V3 0 (cos angle) (- sin angle))
         (V3 0 (sin angle) (cos angle))"

definition obj_rotator :: mat33 where
  "obj_rotator = z_rotator (pi / 32)"

record camera =
  pos :: vec3
  view :: vec3
  speed :: real
  rot_speed :: real

text \<open>\<open>Camera()\<close> with the default arguments of \<open>Camera.__init__\<close>.\<close>

definition Camera_init :: camera where
  "Camera_init = \<lparr>pos = V3 0 (- 10) 0, view = V3 0 1 0, speed = 1 / 10, rot_speed = pi / 64\<rparr>"

text \<open>The properties \<open>x\<close>, \<open>y\<close>, \<open>z\<close> of \<open>Camera\<close>: the components of \<open>self.view.value\<close>.\<close>

definition camera_x :: "camera \<Rightarrow> real" where
  "camera_x c = vx (view c)"

definition camera_y :: "camera \<Rightarrow> real" where
  "camera_y c = vy (view c)"

definition camera_z :: "camera \<Rightarrow> real" where
  "camera_z c = vz (view c)"

definition z_rotation_angle :: "camera \<Rightarrow> real" where
  "z_rotation_angle c =
     (if camera_y c = 0 then pi else arctan (camera_x c / camera_y c))"

definition x_rotation_angle :: "camera \<Rightarrow> real" where
  "x_rotation_angle c =
     (if camera_y c = 0 then pi else arctan (camera_z c / camera_y c))"

definition turn :: "real \<Rightarrow> real \<Rightarrow> camera \<Rightarrow> camera" where
  "turn rad_x rad_z c =
     (let rot_matrix = Matrix33_mul (x_rotator rad_x) (z_rotator rad_z)
      in c\<lparr>view := Matrix33_mul_vec rot_matrix (view c)\<rparr>)"

text \<open>
  \<open>projection\<close>: \<open>1/v.length\<close> raises \<open>ZeroDivisionError\<close> when the length is zero.
\<close>

definition projection :: "vec3 \<Rightarrow> camera \<Rightarrow> vec2 \<Rightarrow> error + vec2" where
  "projection v cam ctr =
     (let v1 = Vector3_sub v (pos cam);
          v2 = Matrix33_mul_vec (x_rotator (x_rotation_angle cam)) v1;
          v3 = Matrix33_mul_vec (z_rotator (z_rotation_angle cam)) v2
      in if Vector3_length v3 = 0 then Inl ZeroDivisionError
         else
           (let sx = 1 / Vector3_length v3;
                sy = 1 / Vector3_length v3;
                sx' = sx * 800;
                sy' = sy * (- 800);
                res = Matrix23_mul_vec (M23 (V3 sx' 0 0) (V3 0 0 sy')) v3
            in Inr (Vector2_add res ctr)))"

text \<open>
  What a lookup in \<open>KEY_BINDINGS\<close> can give: a vector of three or of two components from
  the table, or the default the caller passes, which in \<open>turn_input\<close> is the plain tuple
  \<open>(0,0)\<close>.
\<close>

datatype pyvalue = PVector3 vec3 | PVector2 vec2 | PTuple "int list"

definition KEY_BINDINGS :: "string \<rightharpoonup> pyvalue" where
  "KEY_BINDINGS =
     [''w'' \<mapsto> PVector3 (V3 0 1 0),
      ''a'' \<mapsto> PVector3 (V3 (- 1) 0 0),
      ''s'' \<mapsto> PVector3 (V3 0 (- 1) 0),
      ''d'' \<mapsto> PVector3 (V3 1 0 0),
      '' '' \<mapsto> PVector3 (V3 0 0 1),
      ''q'' \<mapsto> PVector3 (V3 0 0 (- 1)),
      ''i'' \<mapsto> PVector2 (V2 1 0),
      ''j'' \<mapsto> PVector2 (V2 0 1),
      ''k'' \<mapsto> PVector2 (V2 (- 1) 0),
      ''l'' \<mapsto> PVector2 (V2 0 (- 1))]"

text \<open>\<open>dict.get(key, default)\<close>\<close>

definition dict_get :: "('k \<rightharpoonup> 'v) \<Rightarrow> 'k \<Rightarrow> 'v \<Rightarrow> 'v" where
  "dict_get d k dflt = (case d k of None \<Rightarrow> dflt | Some v \<Rightarrow> v)"

text \<open>
  \<open>v *= pi/64\<close>: a vector is scaled; a tuple times a float is Python's \<open>TypeError\<close>
  ("can't multiply sequence by non-int of type 'float'").
\<close>

fun imul :: "pyvalue \<Rightarrow> real \<Rightarrow> error + pyvalue" where
  "imul (PVector3 v) k = Inr (PVector3 (Vector3_mul v k))"
| "imul (PVector2 v) k = Inr (PVector2 (Vector2_mul v k))"
| "imul (PTuple t) k = Inl TypeError"

text \<open>
  \<open>self.camera.turn(*v.value)\<close>: two components are the two angles; three are one
  positional argument too many (\<open>TypeError\<close>); a tuple has no attribute \<open>value\<close>.
\<close>

fun turn_unpacked :: "pyvalue \<Rightarrow> camera \<Rightarrow> error + camera" where
  "turn_unpacked (PVector2 (V2 rad_x rad_z)) c = Inr (turn rad_x rad_z c)"
| "turn_unpacked (PVector3 v) c = Inl TypeError"
| "turn_unpacked (PTuple t) c = Inl AttributeError"

text \<open>
  \<open>Camera.move\<close>: \<open>self.pos += v*self.speed\<close>. Modelled from the spec: adding a vector of
  two components to the position is the absent library's dimensionality error
  (\<open>InvalidInput\<close>); a tuple times the float \<open>speed\<close> is Python's \<open>TypeError\<close>.
\<close>

fun move :: "pyvalue \<Rightarrow> camera \<Rightarrow> error + camera" where
  "move (PVector3 v) c = Inr (c\<lparr>pos := Vector3_add (pos c) (Vector3_mul v (speed c))\<rparr>)"
| "move (PVector2 v) c = Inl InvalidInput"
| "move (PTuple t) c = Inl TypeError"

datatype event_type = Motion | Key | Leave

record event =
  event_type :: event_type
  event_char :: string
  event_x :: real
  event_y :: real

text \<open>
  The attributes of \<open>Window\<close> that the handlers and the draw cycle read or write. The
  canvas is the list of items a draw cycle creates; the timer that schedules the next
  cycle is outside the model.
\<close>

record window =
  shape :: shape
  camera :: camera
  mouse :: "real \<times> real"
  paused :: bool
  centre :: vec2
  w2 :: real
  h2 :: real
  refresh :: nat

definition Window_init :: "shape \<Rightarrow> window" where
  "Window_init sh =
     \<lparr>shape = sh, camera = Camera_init, mouse = (0, 0), paused = False,
      centre = V2 (1366 / 2) (744 / 2), w2 = 1366 / 2, h2 = 744 / 2, refresh = 50\<rparr>"

definition turn_input :: "event \<Rightarrow> window \<Rightarrow> error + window" where
  "turn_input ev w =
     (if paused w then Inr w
      else if event_type ev = Motion then
        (if (event_x ev, event_y ev) \<noteq> (ux (centre w), uy (centre w))
         then Inr (w\<lparr>mouse := (fst (mouse w) + (event_x ev - ux (centre w)),
                              snd (mouse w) + (event_y ev - uy (centre w)))\<rparr>)
         else Inr w)
      else if event_type ev = Key then
        (case imul (dict_get KEY_BINDINGS (event_char ev) (PTuple [0, 0])) (pi / 64) of
           Inl e \<Rightarrow> Inl e
         | Inr v \<Rightarrow>
             (case turn_unpacked v (camera w) of
                Inl e \<Rightarrow> Inl e
              | Inr c \<Rightarrow> Inr (w\<lparr>camera := c\<rparr>)))
      else Inr w)"

definition move_input :: "event \<Rightarrow> window \<Rightarrow> error + window" where
  "move_input ev w =
     (if paused w then Inr w
      else
        (case move (dict_get KEY_BINDINGS (event_char ev) (PVector3 (V3 0 0 0))) (camera w) of
           Inl e \<Rightarrow> Inl e
         | Inr c \<Rightarrow> Inr (w\<lparr>camera := c\<rparr>)))"

definition mouse_to_angles :: "real \<times> real \<Rightarrow> real \<times> real" where
  "mouse_to_angles m = (case m of (mx, my) \<Rightarrow> (my * pi / 1000, - mx * pi / 1000))"

datatype canvas_item = Polygon "vec2 list" | Line vec2 vec2

text \<open>The first loop of \<open>draw\<close>: every point of the shape, projected.\<close>

fun convert_points :: "vec3 list \<Rightarrow> camera \<Rightarrow> vec2 \<Rightarrow> error + vec2 list" where
  "convert_points [] cam ctr = Inr []"
| "convert_points (v # vs) cam ctr =
     (case projection v cam ctr of
        Inl e \<Rightarrow> Inl e
      | Inr converted \<Rightarrow>
          (case convert_points vs cam ctr of
             Inl e \<Rightarrow> Inl e
           | Inr rest \<Rightarrow> Inr (converted # rest)))"

text \<open>\<open>converted_points[x]\<close> for an index \<open>x\<close> of a face or a line.\<close>

definition converted_at :: "vec2 list \<Rightarrow> nat \<Rightarrow> error + vec2" where
  "converted_at converted_points x =
     (if x < length converted_points then Inr (converted_points ! x) else Inl IndexError)"

fun face_points :: "vec2 list \<Rightarrow> nat list \<Rightarrow> error + vec2 list" where
  "face_points converted_points [] = Inr []"
| "face_points converted_points (x # xs) =
     (case converted_at converted_points x of
        Inl e \<Rightarrow> Inl e
      | Inr p \<Rightarrow>
          (case face_points converted_points xs of
             Inl e \<Rightarrow> Inl e
           | Inr ps \<Rightarrow> Inr (p # ps)))"

text \<open>The loop of \<open>draw\<close> over \<open>self.shape.faces\<close>: one polygon per face.\<close>

fun draw_faces :: "vec2 list \<Rightarrow> nat list list \<Rightarrow> error + canvas_item list" where
  "draw_faces converted_points [] = Inr []"
| "draw_faces converted_points (f # fs) =
     (case face_points converted_points f of
        Inl e \<Rightarrow> Inl e
      | Inr ps \<Rightarrow>
          (case draw_faces converted_points fs of
             Inl e \<Rightarrow> Inl e
           | Inr items \<Rightarrow> Inr (Polygon ps # items)))"

text \<open>
  The loop of \<open>draw\<close> over \<open>self.shape.lines\<close>: \<open>for p1, p2 in ...\<close> unpacks each line
  into two indices.
\<close>

fun draw_lines :: "vec2 list \<Rightarrow> edge list \<Rightarrow> error + canvas_item list" where
  "draw_lines converted_points [] = Inr []"
| "draw_lines converted_points (l # ls) =
     (case unpack2 l of
        Inl e \<Rightarrow> Inl e
      | Inr (p1, p2) \<Rightarrow>
          (case converted_at converted_points p1 of
             Inl e \<Rightarrow> Inl e
           | Inr p1_vect \<Rightarrow>
               (case converted_at converted_points p2 of
                  Inl e \<Rightarrow> Inl e
                | Inr p2_vect \<Rightarrow>
                    (case draw_lines converted_points ls of
                       Inl e \<Rightarrow> Inl e
                     | Inr items \<Rightarrow> Inr (Line p1_vect p2_vect # items)))))"

text \<open>
  One draw cycle: the window when the cycle ends and the items it created, or the
  exception that ended it. Reading \<open>self.shape.faces\<close> on a shape without the attribute
  raises \<open>AttributeError\<close>.
\<close>

definition draw :: "window \<Rightarrow> error + window \<times> canvas_item list" where
  "draw w =
     (case mouse_to_angles (mouse w) of
        (rad_x, rad_z) \<Rightarrow>
          (let cam = turn rad_x rad_z (camera w)
           in case convert_points (points (shape w)) cam (centre w) of
                Inl e \<Rightarrow> Inl e
              | Inr converted_points \<Rightarrow>
                  (case faces (shape w) of
                     None \<Rightarrow> Inl AttributeError
                   | Some fs \<Rightarrow>
                       (case draw_faces converted_points fs of
                          Inl e \<Rightarrow> Inl e
                        | Inr polygons \<Rightarrow>
                            (case draw_lines converted_points (lines (shape w)) of
                               Inl e \<Rightarrow> Inl e
                             | Inr segments \<Rightarrow>
                                 (case transform obj_rotator (shape w) of
                                    (sh, Some e) \<Rightarrow> Inl e
                                  | (sh, None) \<Rightarrow>
                                      Inr (w\<lparr>shape := sh, camera := cam, mouse := (0, 0)\<rparr>,
                                           polygons @ segments)))))))"

section \<open>Notions of the specification\<close>

text \<open>
  The specification describes \<open>optimise\<close> in words; these definitions follow the words,
  to be compared with the loops above. \<open>first_occurrences xs\<close> keeps, in the original
  order, every element that no earlier element equals.
\<close>

definition first_occurrences :: "'a list \<Rightarrow> 'a list" where
  "first_occurrences xs =
     map (\<lambda>i. xs ! i) (filter (\<lambda>i. xs ! i \<notin> set (take i xs)) [0..<length xs])"

text \<open>The index of the first element of \<open>ys\<close> equal to \<open>x\<close>.\<close>

definition position_of :: "'a \<Rightarrow> 'a list \<Rightarrow> nat" where
  "position_of x ys = length (takeWhile (\<lambda>y. y \<noteq> x) ys)"

text \<open>
  The old-index-to-new-index mapping: point \<open>i\<close> goes to the index, among the retained
  points, of the point equal to it.
\<close>

definition new_index :: "'a list \<Rightarrow> nat \<Rightarrow> nat" where
  "new_index ps i = position_of (ps ! i) (first_occurrences ps)"

text \<open>The dictionary of that mapping: its keys are the indices of the point list.\<close>

definition changes_of :: "'a list \<Rightarrow> (nat \<rightharpoonup> nat)" where
  "changes_of ps = (\<lambda>k. if k < length ps then Some (new_index ps k) else None)"

text \<open>The point indices that occur in a line.\<close>

fun edge_indices :: "edge \<Rightarrow> nat set" where
  "edge_indices (ESet s) = s"
| "edge_indices (ETuple a b) = {a, b}"

text \<open>Every index in every line is an index into the point list.\<close>

definition valid_indices :: "shape \<Rightarrow> bool" where
  "valid_indices s = (\<forall>l \<in> set (lines s). \<forall>i \<in> edge_indices l. i < length (points s))"

text \<open>
  The shapes reached through calls that return: the results of the constructors (of the
  base class, of \<open>Cube\<close> and \<open>SquarePyramid\<close>, and of \<open>ShapeCombination\<close> over shapes
  built before) and of the four methods, each step a call that raised nothing.
\<close>

inductive reachable :: "shape \<Rightarrow> bool" where
  reachable_init:
    "Shape_init c shift trans_m = Inr s \<Longrightarrow> reachable s"
| reachable_combination:
    "\<forall>sh \<in> set shapes. reachable sh \<Longrightarrow>
     ShapeCombination_init shapes shift trans_m = Inr s \<Longrightarrow> reachable s"
| reachable_move_to:
    "reachable s \<Longrightarrow> reachable (move_to p s)"
| reachable_move_by:
    "reachable s \<Longrightarrow> reachable (move_by p s)"
| reachable_transform:
    "reachable s \<Longrightarrow> transform m s = (s', None) \<Longrightarrow> reachable s'"
| reachable_optimise:
    "reachable s \<Longrightarrow> optimise s = (s', None) \<Longrightarrow> reachable s'"


text \<open>
  The cube after \<open>transform\<close> by the projection onto the plane \<open>z = 0\<close> (lemma
  \<open>flat_cube\<close>), and the state that a further \<open>transform\<close> by the zero matrix hands to
  \<open>optimise\<close>: the four points of the flat cube, all sent to the origin.
\<close>

definition flat_shape :: shape where
  "flat_shape =
     \<lparr>points = [V3 0 0 0, V3 1 0 0, V3 0 1 0, V3 1 1 0],
      lines = [ESet {0}, ESet {0, 1}, ESet {1}, ESet {2}, ESet {2, 3}, ESet {3},
               ESet {0, 2}, ESet {1, 3}],
      faces = None\<rparr>"

definition collapsed_shape :: shape where
  "collapsed_shape =
     flat_shape\<lparr>points := map (Matrix33_mul_vec (M33 (V3 0 0 0) (V3 0 0 0) (V3 0 0 0)))
                              (points flat_shape)\<rparr>"

text \<open>
  A small shape for the examples: its third point repeats the first, and its lines are
  two tuples and a set.
\<close>

definition example_shape :: shape where
  "example_shape =
     \<lparr>points = [V3 0 0 0, V3 1 0 0, V3 0 0 0],
      lines = [ETuple 0 1, ESet {1, 2}, ETuple 2 1], faces = None\<rparr>"

section \<open>First occurrences and positions\<close>

lemma first_occurrences_Nil: "first_occurrences [] = []"
  by (simp add: first_occurrences_def)

lemma first_occurrences_snoc:
  "first_occurrences (xs @ [x]) =
     (if x \<in> set xs then first_occurrences xs else first_occurrences xs @ [x])"
proof -
  let ?keep = "\<lambda>ys i. ys ! i \<notin> set (take i ys)"
  have same: "filter (?keep (xs @ [x])) [0..<length xs] = filter (?keep xs) [0..<length xs]"
    by (rule filter_cong) (auto simp: nth_append)
  have vals: "map (\<lambda>i. (xs @ [x]) ! i) (filter (?keep xs) [0..<length xs])
      = map (\<lambda>i. xs ! i) (filter (?keep xs) [0..<length xs])"
    by (rule map_cong) (auto simp: nth_append)
  have "first_occurrences (xs @ [x])
      = map (\<lambda>i. (xs @ [x]) ! i) (filter (?keep (xs @ [x])) ([0..<length xs] @ [length xs]))"
    unfolding first_occurrences_def by simp
  also have "\<dots> = map (\<lambda>i. (xs @ [x]) ! i) (filter (?keep (xs @ [x])) [0..<length xs])
        @ (if x \<in> set xs then [] else [x])"
    by simp
  also have "\<dots> = first_occurrences xs @ (if x \<in> set xs then [] else [x])"
    unfolding same vals first_occurrences_def ..
  finally show ?thesis by simp
qed

lemma first_occurrences_remdups: "first_occurrences xs = rev (remdups (rev xs))"
  by (induction xs rule: rev_induct)
    (simp_all add: first_occurrences_Nil first_occurrences_snoc)

lemma set_first_occurrences: "set (first_occurrences xs) = set xs"
  by (simp add: first_occurrences_remdups)

lemma distinct_first_occurrences: "distinct (first_occurrences xs)"
  by (simp add: first_occurrences_remdups)

lemma first_occurrences_distinct: "distinct xs \<Longrightarrow> first_occurrences xs = xs"
  by (simp add: first_occurrences_remdups distinct_remdups_id)

lemma first_occurrences_idem: "first_occurrences (first_occurrences xs) = first_occurrences xs"
  by (simp add: first_occurrences_distinct distinct_first_occurrences)

lemma length_first_occurrences: "length (first_occurrences xs) \<le> length xs"
  using length_remdups_leq [of "rev xs"] by (simp add: first_occurrences_remdups)

lemma first_occurrences_append:
  "first_occurrences (xs @ ys) = first_occurrences xs @ filter (\<lambda>y. y \<notin> set xs) (first_occurrences ys)"
proof (induction ys rule: rev_induct)
  case Nil
  then show ?case by (simp add: first_occurrences_Nil)
next
  case (snoc y ys)
  have "first_occurrences (xs @ ys @ [y]) = first_occurrences ((xs @ ys) @ [y])"
    by simp
  also have "\<dots> = (if y \<in> set (xs @ ys) then first_occurrences (xs @ ys)
                   else first_occurrences (xs @ ys) @ [y])"
    by (rule first_occurrences_snoc)
  finally show ?case
    using snoc.IH by (auto simp: first_occurrences_snoc)
qed

lemma first_occurrences_drop_seen:
  "x \<in> set xs \<Longrightarrow> first_occurrences (xs @ x # ys) = first_occurrences (xs @ ys)"
proof -
  assume x: "x \<in> set xs"
  have "first_occurrences (xs @ x # ys) = first_occurrences ((xs @ [x]) @ ys)"
    by simp
  also have "\<dots> = first_occurrences (xs @ [x]) @ filter (\<lambda>y. y \<notin> set (xs @ [x])) (first_occurrences ys)"
    by (rule first_occurrences_append)
  also have "\<dots> = first_occurrences xs @ filter (\<lambda>y. y \<notin> set xs) (first_occurrences ys)"
    using x by (simp add: first_occurrences_snoc insert_absorb)
  also have "\<dots> = first_occurrences (xs @ ys)"
    by (rule first_occurrences_append [symmetric])
  finally show ?thesis .
qed

lemma position_of_less: "x \<in> set ys \<Longrightarrow> position_of x ys < length ys"
  unfolding position_of_def by (induction ys) auto

lemma nth_position_of: "x \<in> set ys \<Longrightarrow> ys ! position_of x ys = x"
  unfolding position_of_def by (induction ys) auto

lemma position_of_append: "x \<in> set ys \<Longrightarrow> position_of x (ys @ zs) = position_of x ys"
  by (simp add: position_of_def)

lemma position_of_new: "x \<notin> set ys \<Longrightarrow> position_of x (ys @ x # zs) = length ys"
  unfolding position_of_def by (induction ys) auto

lemma position_of_nth: "distinct ys \<Longrightarrow> i < length ys \<Longrightarrow> position_of (ys ! i) ys = i"
proof (induction ys arbitrary: i)
  case Nil
  then show ?case by simp
next
  case (Cons y ys)
  then show ?case
    by (cases i) (auto simp: position_of_def)
qed

lemma new_index_less: "k < length ps \<Longrightarrow> new_index ps k < length (first_occurrences ps)"
  by (simp add: new_index_def position_of_less set_first_occurrences)

lemma nth_new_index: "k < length ps \<Longrightarrow> first_occurrences ps ! new_index ps k = ps ! k"
  by (simp add: new_index_def nth_position_of set_first_occurrences)

lemma new_index_distinct: "distinct ps \<Longrightarrow> k < length ps \<Longrightarrow> new_index ps k = k"
  by (simp add: new_index_def first_occurrences_distinct position_of_nth)

lemma dom_changes_of: "dom (changes_of ps) = {..<length ps}"
  by (auto simp: changes_of_def dom_def)

lemma changes_of_Some: "changes_of ps k = Some a \<Longrightarrow> a < length (first_occurrences ps)"
  by (auto simp: changes_of_def new_index_less split: if_splits)

lemma changes_of_distinct: "distinct ps \<Longrightarrow> k < length ps \<Longrightarrow> changes_of ps k = Some k"
  by (simp add: changes_of_def new_index_distinct)

section \<open>The loops of \<open>optimise\<close>\<close>

text \<open>
  The point loop, started anywhere: \<open>pre\<close> is the part of the point list already
  scanned, \<open>seen_vects\<close> its first occurrences.
\<close>

lemma find_seen_position:
  "find_seen v ws j = (if v \<in> set ws then Some (j + position_of v ws) else None)"
  by (induction ws arbitrary: j) (auto simp: position_of_def)

lemma scan_points_spec:
  assumes "i = length pre" and "seen = first_occurrences pre" and "offset + length seen = i"
  shows "scan_points vs i seen changes offset =
     (first_occurrences (pre @ vs),
      \<lambda>k. if i \<le> k \<and> k < i + length vs
           then Some (position_of ((pre @ vs) ! k) (first_occurrences (pre @ vs)))
           else changes k)"
  using assms
proof (induction vs arbitrary: pre i seen changes offset)
  case Nil
  then show ?case by (auto simp: fun_eq_iff)
next
  case (Cons v vs)
  let ?pre = "pre @ [v]"
  have app: "pre @ v # vs = ?pre @ vs"
    by simp
  have split: "first_occurrences (?pre @ vs)
      = first_occurrences ?pre @ filter (\<lambda>y. y \<notin> set ?pre) (first_occurrences vs)"
    by (rule first_occurrences_append)
  have v_in: "v \<in> set (first_occurrences ?pre)"
    by (simp add: set_first_occurrences)
  have at_i: "(?pre @ vs) ! i = v"
    using Cons.prems(1) by (simp add: nth_append)
  show ?case
  proof (cases "v \<in> set seen")
    case True
    then have seen': "seen = first_occurrences ?pre"
      using Cons.prems(2) by (simp add: first_occurrences_snoc set_first_occurrences)
    have found: "find_seen v seen 0 = Some (position_of v seen)"
      using True by (simp add: find_seen_position)
    have pos_i: "position_of v (first_occurrences (?pre @ vs)) = position_of v seen"
      unfolding split using v_in seen' by (simp add: position_of_append)
    have step: "scan_points (v # vs) i seen changes offset
        = scan_points vs (Suc i) seen (changes(i \<mapsto> position_of v seen)) (Suc offset)"
      by (simp add: found)
    have ih: "scan_points vs (Suc i) seen (changes(i \<mapsto> position_of v seen)) (Suc offset) =
       (first_occurrences (?pre @ vs),
        \<lambda>k. if Suc i \<le> k \<and> k < Suc i + length vs
             then Some (position_of ((?pre @ vs) ! k) (first_occurrences (?pre @ vs)))
             else (changes(i \<mapsto> position_of v seen)) k)"
    proof (rule Cons.IH)
      show "Suc i = length ?pre"
        using Cons.prems(1) by simp
      show "seen = first_occurrences ?pre"
        by (rule seen')
      show "Suc offset + length seen = Suc i"
        using Cons.prems(3) by simp
    qed
    show ?thesis
      unfolding step ih app using at_i pos_i by (auto simp: fun_eq_iff)
  next
    case False
    then have seen': "seen @ [v] = first_occurrences ?pre"
      using Cons.prems(2) by (simp add: first_occurrences_snoc set_first_occurrences)
    have found: "find_seen v seen 0 = None"
      using False by (simp add: find_seen_position)
    have pos_i: "position_of v (first_occurrences (?pre @ vs)) = i - offset"
    proof -
      have "position_of v (first_occurrences (?pre @ vs)) = position_of v (seen @ [v])"
        unfolding split using v_in seen' by (simp add: position_of_append)
      also have "\<dots> = length seen"
        using False position_of_new [of v seen "[]"] by simp
      finally show ?thesis
        using Cons.prems(3) by simp
    qed
    have step: "scan_points (v # vs) i seen changes offset
        = scan_points vs (Suc i) (seen @ [v]) (changes(i \<mapsto> i - offset)) offset"
      by (simp add: found)
    have ih: "scan_points vs (Suc i) (seen @ [v]) (changes(i \<mapsto> i - offset)) offset =
       (first_occurrences (?pre @ vs),
        \<lambda>k. if Suc i \<le> k \<and> k < Suc i + length vs
             then Some (position_of ((?pre @ vs) ! k) (first_occurrences (?pre @ vs)))
             else (changes(i \<mapsto> i - offset)) k)"
    proof (rule Cons.IH)
      show "Suc i = length ?pre"
        using Cons.prems(1) by simp
      show "seen @ [v] = first_occurrences ?pre"
        by (rule seen')
      show "offset + length (seen @ [v]) = Suc i"
        using Cons.prems(3) by simp
    qed
    show ?thesis
      unfolding step ih app using at_i pos_i by (auto simp: fun_eq_iff)
  qed
qed

lemma scan_points_changes_of:
  "scan_points ps 0 [] Map.empty 0 = (first_occurrences ps, changes_of ps)"
proof -
  have "scan_points ps 0 [] Map.empty 0 =
     (first_occurrences ([] @ ps),
      \<lambda>k. if 0 \<le> k \<and> k < 0 + length ps
           then Some (position_of (([] @ ps) ! k) (first_occurrences ([] @ ps)))
           else Map.empty k)"
    by (rule scan_points_spec) (simp_all add: first_occurrences_Nil)
  then show ?thesis
    by (simp add: changes_of_def new_index_def fun_eq_iff)
qed

lemma remove_duplicate_lines_spec:
  "distinct new_lines \<Longrightarrow> remove_duplicate_lines ls new_lines = first_occurrences (new_lines @ ls)"
proof (induction ls arbitrary: new_lines)
  case Nil
  then show ?case by (simp add: first_occurrences_distinct)
next
  case (Cons l ls)
  show ?case
  proof (cases "l \<in> set new_lines")
    case True
    then show ?thesis
      using Cons.IH [OF Cons.prems] by (simp add: first_occurrences_drop_seen)
  next
    case False
    with Cons.prems have "distinct (new_lines @ [l])"
      by simp
    from Cons.IH [OF this] False show ?thesis
      by simp
  qed
qed

lemma unpack2_indices: "unpack2 l = Inr (i, j) \<Longrightarrow> edge_indices l = {i, j}"
proof (cases l)
  case (ESet s)
  assume u: "unpack2 l = Inr (i, j)"
  with ESet have c: "card s = 2" and ij: "i = Min s" "j = Max s"
    by (auto split: if_splits)
  from c obtain a b where s: "s = {a, b}" and "a \<noteq> b"
    by (auto simp: card_2_iff)
  then show ?thesis
    using ESet ij by (auto simp: min_def max_def)
next
  case (ETuple a b)
  assume "unpack2 l = Inr (i, j)"
  with ETuple show ?thesis by auto
qed


lemma rewrite_lines_Inr:
  "rewrite_lines ch ls = Inr ls' \<Longrightarrow>
   \<forall>l' \<in> set ls'. \<exists>a b. l' = ESet {a, b} \<and> a \<in> ran ch \<and> b \<in> ran ch"
proof (induction ls arbitrary: ls')
  case Nil
  then show ?case by simp
next
  case (Cons l ls)
  then show ?case
    by (auto simp: ran_def split: sum.splits option.splits prod.splits) blast+
qed


lemma rewrite_lines_Inl:
  "rewrite_lines c1 ls = Inl e \<Longrightarrow> dom c2 \<subseteq> dom c1 \<Longrightarrow> \<exists>e'. rewrite_lines c2 ls = Inl e'"
proof (induction ls arbitrary: e)
  case Nil
  then show ?case by simp
next
  case (Cons l ls)
  show ?case
  proof (cases "unpack2 l")
    case (Inl e1)
    then show ?thesis by simp
  next
    case (Inr ij)
    obtain i j where ij: "ij = (i, j)"
      by (cases ij)
    show ?thesis
    proof (cases "c2 i")
      case None
      then show ?thesis by (simp add: Inr ij)
    next
      case (Some a)
      note c2i = this
      show ?thesis
      proof (cases "c2 j")
        case None
        then show ?thesis by (simp add: Inr ij c2i)
      next
        case (Some b)
        from c2i Some Cons.prems(2) obtain a' b' where c1: "c1 i = Some a'" "c1 j = Some b'"
          by (meson domD domI subsetD)
        with Cons.prems(1) Inr ij obtain e1 where "rewrite_lines c1 ls = Inl e1"
          by (auto split: sum.splits)
        from Cons.IH [OF this Cons.prems(2)] show ?thesis
          by (auto simp: Inr ij c2i Some)
      qed
    qed
  qed
qed

lemma rewrite_lines_identity:
  assumes "\<forall>l \<in> set ls. \<exists>s. l = ESet s \<and> (\<forall>k \<in> s. ch k = Some k)"
    and "rewrite_lines ch ls = Inr ls'"
  shows "ls' = ls"
  using assms
proof (induction ls arbitrary: ls')
  case Nil
  then show ?case by simp
next
  case (Cons l ls)
  from Cons.prems(1) obtain s where l: "l = ESet s" and id: "\<forall>k \<in> s. ch k = Some k"
    by auto
  from Cons.prems(2) obtain i j where u: "unpack2 l = Inr (i, j)"
    by (auto split: sum.splits)
  then have s: "s = {i, j}"
    using unpack2_indices [OF u] l by simp
  with id have ch: "ch i = Some i" "ch j = Some j"
    by auto
  from Cons.prems(2) obtain rest where r: "rewrite_lines ch ls = Inr rest" and ls': "ls' = ESet {i, j} # rest"
    by (auto simp: u ch split: sum.splits)
  from Cons.prems(1) have "\<forall>l \<in> set ls. \<exists>s. l = ESet s \<and> (\<forall>k \<in> s. ch k = Some k)"
    by simp
  from Cons.IH [OF this r] show ?case
    by (simp add: ls' l s)
qed

lemma rewrite_lines_returns:
  assumes "\<forall>l \<in> set ls. \<exists>i j. unpack2 l = Inr (i, j) \<and> i \<in> dom ch \<and> j \<in> dom ch"
  shows "\<exists>ls'. rewrite_lines ch ls = Inr ls'"
  using assms
proof (induction ls)
  case Nil
  then show ?case by simp
next
  case (Cons l ls)
  then show ?case by (auto simp: dom_def)
qed

lemma optimise_eq:
  "optimise s =
     (case rewrite_lines (changes_of (points s)) (lines s) of
        Inl e \<Rightarrow> (s\<lparr>points := first_occurrences (points s)\<rparr>, Some e)
      | Inr ls \<Rightarrow>
          (s\<lparr>points := first_occurrences (points s), lines := first_occurrences ls\<rparr>, None))"
  by (simp add: optimise_def scan_points_changes_of remove_duplicate_lines_spec
      split: sum.splits)

lemma optimise_points: "points (fst (optimise s)) = first_occurrences (points s)"
  by (simp add: optimise_eq split: sum.splits)

lemma optimise_valid:
  assumes "optimise s = (s', None)"
  shows "valid_indices s'"
proof -
  from assms obtain ls where rw: "rewrite_lines (changes_of (points s)) (lines s) = Inr ls"
    and s': "s' = s\<lparr>points := first_occurrences (points s), lines := first_occurrences ls\<rparr>"
    by (auto simp: optimise_eq split: sum.splits)
  have "\<forall>l' \<in> set ls. \<forall>i \<in> edge_indices l'. i < length (first_occurrences (points s))"
  proof
    fix l' assume "l' \<in> set ls"
    with rewrite_lines_Inr [OF rw] obtain a b where l': "l' = ESet {a, b}"
      and "a \<in> ran (changes_of (points s))" "b \<in> ran (changes_of (points s))"
      by blast
    then have "a < length (first_occurrences (points s))" "b < length (first_occurrences (points s))"
      by (auto simp: ran_def dest: changes_of_Some)
    then show "\<forall>i \<in> edge_indices l'. i < length (first_occurrences (points s))"
      by (simp add: l')
  qed
  then show ?thesis
    by (simp add: valid_indices_def s' set_first_occurrences)
qed


lemma optimise_state_twice:
  "fst (optimise (fst (optimise s))) = fst (optimise s)"
proof -
  let ?q = "first_occurrences (points s)"
  have dq: "distinct ?q"
    by (rule distinct_first_occurrences)
  have qq: "first_occurrences ?q = ?q"
    by (rule first_occurrences_idem)
  show ?thesis
  proof (cases "rewrite_lines (changes_of (points s)) (lines s)")
    case (Inl e)
    then have s1: "fst (optimise s) = s\<lparr>points := ?q\<rparr>"
      by (simp add: optimise_eq)
    have "dom (changes_of ?q) \<subseteq> dom (changes_of (points s))"
      by (simp add: dom_changes_of length_first_occurrences)
    from rewrite_lines_Inl [OF Inl this]
    obtain e' where "rewrite_lines (changes_of ?q) (lines s) = Inl e'" ..
    then have "fst (optimise (s\<lparr>points := ?q\<rparr>)) = s\<lparr>points := ?q\<rparr>"
      by (simp add: optimise_eq qq)
    then show ?thesis
      by (simp add: s1)
  next
    case (Inr ls)
    let ?s1 = "s\<lparr>points := ?q, lines := first_occurrences ls\<rparr>"
    from Inr have s1: "fst (optimise s) = ?s1"
      by (simp add: optimise_eq)
    have ident: "\<forall>l \<in> set (first_occurrences ls). \<exists>t. l = ESet t \<and> (\<forall>k \<in> t. changes_of ?q k = Some k)"
    proof
      fix l assume "l \<in> set (first_occurrences ls)"
      then have "l \<in> set ls"
        by (simp add: set_first_occurrences)
      with rewrite_lines_Inr [OF Inr] obtain a b where l: "l = ESet {a, b}"
        and "a \<in> ran (changes_of (points s))" "b \<in> ran (changes_of (points s))"
        by blast
      then have "a < length ?q" "b < length ?q"
        by (auto simp: ran_def dest: changes_of_Some)
      then have "changes_of ?q a = Some a" "changes_of ?q b = Some b"
        using dq by (simp_all add: changes_of_distinct)
      then show "\<exists>t. l = ESet t \<and> (\<forall>k \<in> t. changes_of ?q k = Some k)"
        using l by auto
    qed
    have "fst (optimise ?s1) = ?s1"
    proof (cases "rewrite_lines (changes_of ?q) (first_occurrences ls)")
      case (Inl e)
      then show ?thesis
        by (simp add: optimise_eq qq)
    next
      case (Inr ls2)
      from rewrite_lines_identity [OF ident Inr] have "ls2 = first_occurrences ls" .
      with Inr show ?thesis
        by (simp add: optimise_eq qq first_occurrences_idem)
    qed
    then show ?thesis
      by (simp add: s1)
  qed
qed

lemma optimise_twice_returns:
  assumes "optimise s = (s', None)"
    and "\<forall>l \<in> set (lines s'). card (edge_indices l) = 2"
  shows "optimise s' = (s', None)"
proof -
  from assms(1) have v: "valid_indices s'"
    by (rule optimise_valid)
  from assms(1) have p: "points s' = first_occurrences (points s)"
    using optimise_points [of s] by simp
  from assms(1) obtain ls where rw: "rewrite_lines (changes_of (points s)) (lines s) = Inr ls"
    and l': "lines s' = first_occurrences ls"
    by (auto simp: optimise_eq split: sum.splits)
  have sets: "\<forall>l \<in> set (lines s'). \<exists>t. l = ESet t"
    using rewrite_lines_Inr [OF rw] by (auto simp: l' set_first_occurrences)
  have "\<forall>l \<in> set (lines s'). \<exists>i j. unpack2 l = Inr (i, j)
        \<and> i \<in> dom (changes_of (points s')) \<and> j \<in> dom (changes_of (points s'))"
  proof
    fix l assume l: "l \<in> set (lines s')"
    with sets obtain t where t: "l = ESet t" by auto
    from assms(2) l t have c: "card t = 2" by auto
    then have u: "unpack2 l = Inr (Min t, Max t)"
      by (simp add: t)
    from unpack2_indices [OF u] t have "t = {Min t, Max t}" by simp
    then have "Min t \<in> t" "Max t \<in> t" by auto
    with v l t have "Min t < length (points s')" "Max t < length (points s')"
      by (auto simp: valid_indices_def)
    then show "\<exists>i j. unpack2 l = Inr (i, j)
        \<and> i \<in> dom (changes_of (points s')) \<and> j \<in> dom (changes_of (points s'))"
      using u by (auto simp: dom_changes_of)
  qed
  from rewrite_lines_returns [OF this]
  obtain ls2 where "rewrite_lines (changes_of (points s')) (lines s') = Inr ls2" ..
  then have "snd (optimise s') = None"
    by (simp add: optimise_eq)
  moreover have "fst (optimise s') = s'"
    using optimise_state_twice [of s] assms(1) by simp
  ultimately show ?thesis
    by (metis prod.collapse)
qed

section \<open>Concrete shapes\<close>

lemma Cube_default: "Shape_init Cube v0 m1 = Inr (reset Cube)"
  by (simp add: Shape_init_def transform_def m1_def v0_def move_to_def reset_def)





lemma flat_cube:
  "transform (M33 (V3 1 0 0) (V3 0 1 0) (V3 0 0 0)) (reset Cube) =
     (\<lparr>points = [V3 0 0 0, V3 1 0 0, V3 0 1 0, V3 1 1 0],
       lines = [ESet {0}, ESet {0, 1}, ESet {1}, ESet {2}, ESet {2, 3}, ESet {3},
                ESet {0, 2}, ESet {1, 3}],
       faces = None\<rparr>, None)"
  by code_simp

text \<open>
  A second collapse of that flat cube, by the zero matrix: \<open>optimise\<close> has replaced the
  four points by one when the line \<open>{0}\<close> fails to unpack, and the lines stay as they
  were. The call raises, and the object keeps these attributes.
\<close>

lemma raising_optimise_keeps_old_lines:
  "transform (M33 (V3 0 0 0) (V3 0 0 0) (V3 0 0 0))
     \<lparr>points = [V3 0 0 0, V3 1 0 0, V3 0 1 0, V3 1 1 0],
       lines = [ESet {0}, ESet {0, 1}, ESet {1}, ESet {2}, ESet {2, 3}, ESet {3},
                ESet {0, 2}, ESet {1, 3}],
       faces = None\<rparr>
   = (\<lparr>points = [V3 0 0 0],
       lines = [ESet {0}, ESet {0, 1}, ESet {1}, ESet {2}, ESet {2, 3}, ESet {3},
                ESet {0, 2}, ESet {1, 3}],
       faces = None\<rparr>, Some ValueError)"
  by code_simp



lemma collapsed_points: "points collapsed_shape = [V3 0 0 0, V3 0 0 0, V3 0 0 0, V3 0 0 0]"
  by code_simp





lemma example_returns: "snd (optimise example_shape) = None"
  by code_simp

lemma example_optimised:
  "fst (optimise example_shape)
   = \<lparr>points = [V3 0 0 0, V3 1 0 0], lines = [ESet {0, 1}], faces = None\<rparr>"
  by code_simp

lemma example_two_indices:
  "\<forall>l \<in> set (lines (fst (optimise example_shape))). card (edge_indices l) = 2"
  by code_simp

section \<open>The shape model\<close>

lemma Vector3_sub_add_self: "Vector3_add (Vector3_sub c c) t = t"
  by (cases c; cases t) simp

text \<open>
  C7. After \<open>move_to t\<close> on a shape with at least one point, point 0 equals \<open>t\<close>, point
  \<open>i\<close> is its old value minus the old anchor plus \<open>t\<close>, and the lines are the old ones.
\<close>

theorem move_to_anchor:
  assumes "points s \<noteq> []"
  shows "points (move_to t s) ! 0 = t
    \<and> length (points (move_to t s)) = length (points s)
    \<and> (\<forall>i < length (points s).
          points (move_to t s) ! i = Vector3_add (Vector3_sub (points s ! i) (points s ! 0)) t)
    \<and> lines (move_to t s) = lines s"
proof -
  from assms obtain c cs where pc: "points s = c # cs"
    by (cases "points s") auto
  let ?f = "\<lambda>v. Vector3_add (Vector3_sub v c) t"
  have mv: "move_to t s = s\<lparr>points := map ?f (points s)\<rparr>"
    by (simp add: move_to_def pc)
  have c0: "points s ! 0 = c"
    by (simp add: pc)
  have p0: "points (move_to t s) ! 0 = t"
    by (simp add: mv pc Vector3_sub_add_self)
  have len: "length (points (move_to t s)) = length (points s)"
    by (simp add: mv)
  have pi: "\<forall>i < length (points s).
      points (move_to t s) ! i = Vector3_add (Vector3_sub (points s ! i) (points s ! 0)) t"
    unfolding c0 by (simp add: mv)
  have ln: "lines (move_to t s) = lines s"
    by (simp add: mv)
  from p0 len pi ln show ?thesis by blast
qed

theorem move_to_anchor_witness:
  "points (reset Cube) \<noteq> []
   \<and> points (move_to (V3 1 2 3) (reset Cube)) ! 0 = V3 1 2 3
   \<and> points (move_to (V3 1 2 3) (reset Cube)) ! 1 = V3 1 2 4
   \<and> lines (move_to (V3 1 2 3) (reset Cube)) = LINES Cube"
proof -
  have h: "points (reset Cube) \<noteq> []"
    by (simp add: reset_def)
  have "points (move_to (V3 1 2 3) (reset Cube)) ! 1
      = Vector3_add (Vector3_sub (points (reset Cube) ! 1) (points (reset Cube) ! 0)) (V3 1 2 3)"
    using move_to_anchor [OF h, of "V3 1 2 3"] by (simp add: reset_def)
  then have p1: "points (move_to (V3 1 2 3) (reset Cube)) ! 1 = V3 1 2 4"
    by (simp add: reset_def)
  from h p1 move_to_anchor [OF h, of "V3 1 2 3"] show ?thesis
    by (simp add: reset_def)
qed

text \<open>
  C8. \<open>transform m\<close> replaces every point \<open>p\<close> by \<open>m * p\<close>. When the determinant of \<open>m\<close> is
  not zero that is all it does: it returns, the number of points and the lines are
  unchanged. When the determinant is zero it goes on with \<open>optimise\<close> on the replaced
  points, so the points it leaves are the first occurrences of the images.
\<close>

theorem transform_optimises_iff_singular:
  "(det m \<noteq> 0 \<longrightarrow>
      transform m s = (s\<lparr>points := map (Matrix33_mul_vec m) (points s)\<rparr>, None)
      \<and> length (points (fst (transform m s))) = length (points s)
      \<and> (\<forall>i < length (points s).
            points (fst (transform m s)) ! i = Matrix33_mul_vec m (points s ! i))
      \<and> lines (fst (transform m s)) = lines s)
   \<and> (det m = 0 \<longrightarrow>
      transform m s = optimise (s\<lparr>points := map (Matrix33_mul_vec m) (points s)\<rparr>)
      \<and> points (fst (transform m s)) = first_occurrences (map (Matrix33_mul_vec m) (points s)))"
  by (simp add: transform_def optimise_points)

theorem transform_optimises_iff_singular_witness:
  "det m1 \<noteq> 0 \<and> transform m1 (reset Cube) = (reset Cube, None)
   \<and> det (M33 (V3 1 0 0) (V3 0 1 0) (V3 0 0 0)) = 0
   \<and> points (fst (transform (M33 (V3 1 0 0) (V3 0 1 0) (V3 0 0 0)) (reset Cube)))
       = [V3 0 0 0, V3 1 0 0, V3 0 1 0, V3 1 1 0]"
proof -
  have a: "det m1 \<noteq> 0"
    by (simp add: m1_def)
  have b: "map (Matrix33_mul_vec m1) (points (reset Cube)) = points (reset Cube)"
    by (simp add: m1_def reset_def)
  from transform_optimises_iff_singular [of m1 "reset Cube"] a b
  have c: "transform m1 (reset Cube) = (reset Cube, None)"
    by simp
  have d: "det (M33 (V3 1 0 0) (V3 0 1 0) (V3 0 0 0)) = 0"
    by simp
  from transform_optimises_iff_singular [of "M33 (V3 1 0 0) (V3 0 1 0) (V3 0 0 0)" "reset Cube"] d
  have "points (fst (transform (M33 (V3 1 0 0) (V3 0 1 0) (V3 0 0 0)) (reset Cube)))
      = points (fst (optimise (reset Cube
          \<lparr>points := map (Matrix33_mul_vec (M33 (V3 1 0 0) (V3 0 1 0) (V3 0 0 0))) (points (reset Cube))\<rparr>)))"
    by simp
  with a c d show ?thesis
    by (simp add: flat_cube)
qed




text \<open>
  C9. A second \<open>optimise\<close> right after a first leaves the points and the lines as the
  first left them, whatever the shape. After the first pass the points are pairwise
  distinct and the index mapping the second pass builds is the identity. The second call
  returns when the first did and left two indices in every line; a line of one index
  makes it raise, with the points and lines still unchanged.
\<close>

theorem optimise_idempotent:
  "fst (optimise (fst (optimise s))) = fst (optimise s)
   \<and> distinct (points (fst (optimise s)))
   \<and> scan_points (points (fst (optimise s))) 0 [] Map.empty 0
       = (points (fst (optimise s)),
          \<lambda>k. if k < length (points (fst (optimise s))) then Some k else None)
   \<and> (snd (optimise s) = None
        \<and> (\<forall>l \<in> set (lines (fst (optimise s))). card (edge_indices l) = 2) \<longrightarrow>
        optimise (fst (optimise s)) = (fst (optimise s), None))"
proof -
  let ?q = "points (fst (optimise s))"
  have d: "distinct ?q"
    by (simp add: optimise_points distinct_first_occurrences)
  have "changes_of ?q = (\<lambda>k. if k < length ?q then Some k else None)"
    using d by (auto simp: changes_of_def new_index_distinct fun_eq_iff)
  then have m: "scan_points ?q 0 [] Map.empty 0
      = (?q, \<lambda>k. if k < length ?q then Some k else None)"
    using d by (simp add: scan_points_changes_of first_occurrences_distinct)
  have r: "snd (optimise s) = None
        \<and> (\<forall>l \<in> set (lines (fst (optimise s))). card (edge_indices l) = 2) \<longrightarrow>
        optimise (fst (optimise s)) = (fst (optimise s), None)"
  proof
    assume a: "snd (optimise s) = None
        \<and> (\<forall>l \<in> set (lines (fst (optimise s))). card (edge_indices l) = 2)"
    then have "optimise s = (fst (optimise s), None)"
      by (metis prod.collapse)
    with a show "optimise (fst (optimise s)) = (fst (optimise s), None)"
      by (intro optimise_twice_returns) auto
  qed
  from optimise_state_twice [of s] d m r show ?thesis
    by blast
qed

theorem optimise_idempotent_witness:
  "optimise \<lparr>points = [V3 0 0 0, V3 1 0 0], lines = [ESet {0, 1}], faces = None\<rparr>
   = (\<lparr>points = [V3 0 0 0, V3 1 0 0], lines = [ESet {0, 1}], faces = None\<rparr>, None)"
proof -
  from optimise_idempotent [of example_shape] example_returns example_two_indices
  have "optimise (fst (optimise example_shape)) = (fst (optimise example_shape), None)"
    by blast
  then show ?thesis
    by (simp only: example_optimised)
qed










text \<open>
  C10. \<open>optimise\<close> can leave a line with a single index. The cube is a reachable shape
  and the projection onto the plane \<open>z = 0\<close> has determinant zero; \<open>transform\<close> returns,
  and among the lines it leaves is one whose two ends were merged: it holds one index,
  it does not unpack into two (\<open>ValueError\<close>), and the line loop of \<open>draw\<close> raises on
  the shape whatever the converted points are.
\<close>

theorem collapsed_edge:
  "\<exists>s m s'. reachable s \<and> det m = 0 \<and> transform m s = (s', None)
     \<and> (\<exists>l \<in> set (lines s'). \<exists>k. edge_indices l = {k} \<and> unpack2 l = Inl ValueError)
     \<and> (\<forall>converted_points. draw_lines converted_points (lines s') = Inl ValueError)"
proof -
  have r: "reachable (reset Cube)"
    using Cube_default by (rule reachable_init)
  have d: "det (M33 (V3 1 0 0) (V3 0 1 0) (V3 0 0 0)) = 0"
    by simp
  show ?thesis
    apply (intro exI conjI)
        apply (rule r)
       apply (rule d)
      apply (rule flat_cube)
     apply simp
    apply simp
    done
qed

theorem collapsed_edge_witness:
  "\<exists>s m s'. det m = 0 \<and> transform m s = (s', None) \<and> draw_lines [] (lines s') = Inl ValueError"
  using collapsed_edge by blast

section \<open>The camera, the projection and the window\<close>

text \<open>
  C6. With the \<open>y\<close> component of the view equal to zero both angles are \<open>pi\<close>; otherwise
  they are \<open>atan(z/y)\<close> and \<open>atan(x/y)\<close> of the view. They are functions of the current
  view alone: two cameras with the same view have the same angles, whatever happened
  before.
\<close>

theorem rotation_angles:
  "(vy (view c) = 0 \<longrightarrow> x_rotation_angle c = pi \<and> z_rotation_angle c = pi)
   \<and> (vy (view c) \<noteq> 0 \<longrightarrow>
        x_rotation_angle c = arctan (vz (view c) / vy (view c))
        \<and> z_rotation_angle c = arctan (vx (view c) / vy (view c)))
   \<and> (view c' = view c \<longrightarrow>
        x_rotation_angle c' = x_rotation_angle c \<and> z_rotation_angle c' = z_rotation_angle c)"
  by (simp add: x_rotation_angle_def z_rotation_angle_def camera_x_def camera_y_def camera_z_def)

theorem rotation_angles_witness:
  "x_rotation_angle Camera_init = 0 \<and> z_rotation_angle Camera_init = 0
   \<and> x_rotation_angle (Camera_init\<lparr>view := V3 1 0 2\<rparr>) = pi
   \<and> z_rotation_angle (Camera_init\<lparr>view := V3 1 0 2\<rparr>) = pi"
  using rotation_angles [of Camera_init Camera_init]
    rotation_angles [of "Camera_init\<lparr>view := V3 1 0 2\<rparr>" Camera_init]
  by (simp add: Camera_init_def)

text \<open>
  C1. For a camera whose view has a non-zero \<open>y\<close> component and a point whose rotated
  camera-relative vector \<open>v'\<close> has a non-zero length, \<open>projection\<close> returns
  \<open>centre + (800 * v'.x / length(v'), -800 * v'.z / length(v'))\<close>.
\<close>

theorem projection_formula:
  assumes "vy (view c) \<noteq> 0"
    and "v' = Matrix33_mul_vec (z_rotator (z_rotation_angle c))
               (Matrix33_mul_vec (x_rotator (x_rotation_angle c)) (Vector3_sub p (pos c)))"
    and "Vector3_length v' \<noteq> 0"
  shows "projection p c ctr =
     Inr (Vector2_add ctr (V2 (800 * vx v' / Vector3_length v') (- 800 * vz v' / Vector3_length v')))"
proof -
  let ?v = "Matrix33_mul_vec (z_rotator (z_rotation_angle c))
               (Matrix33_mul_vec (x_rotator (x_rotation_angle c)) (Vector3_sub p (pos c)))"
  from assms(2,3) have nz: "Vector3_length ?v \<noteq> 0"
    by simp
  have run: "projection p c ctr =
      Inr (Vector2_add
            (Matrix23_mul_vec
               (M23 (V3 (1 / Vector3_length ?v * 800) 0 0) (V3 0 0 (1 / Vector3_length ?v * (- 800)))) ?v)
            ctr)"
    unfolding projection_def Let_def using nz by simp
  obtain a b d where v: "?v = V3 a b d"
    by (cases ?v)
  obtain cx cy where ctr: "ctr = V2 cx cy"
    by (cases ctr)
  have "Vector2_add
            (Matrix23_mul_vec
               (M23 (V3 (1 / Vector3_length ?v * 800) 0 0) (V3 0 0 (1 / Vector3_length ?v * (- 800)))) ?v)
            ctr
      = Vector2_add ctr (V2 (800 * vx ?v / Vector3_length ?v) (- 800 * vz ?v / Vector3_length ?v))"
    unfolding v ctr by simp
  with run show ?thesis
    unfolding assms(2) by simp
qed

lemma sqrt25: "sqrt 25 = 5"
  by (rule real_sqrt_unique) simp_all

theorem projection_formula_witness:
  "vy (view Camera_init) \<noteq> 0
   \<and> projection (V3 3 (- 6) 0) Camera_init (V2 683 372) = Inr (V2 1163 372)"
proof -
  have y: "vy (view Camera_init) \<noteq> 0"
    by (simp add: Camera_init_def)
  have v: "V3 3 4 0 = Matrix33_mul_vec (z_rotator (z_rotation_angle Camera_init))
      (Matrix33_mul_vec (x_rotator (x_rotation_angle Camera_init))
        (Vector3_sub (V3 3 (- 6) 0) (pos Camera_init)))"
    by (simp add: Camera_init_def x_rotator_def z_rotator_def x_rotation_angle_def
        z_rotation_angle_def camera_x_def camera_y_def camera_z_def)
  have l: "Vector3_length (V3 3 4 0) \<noteq> 0"
    by (simp add: sqrt25)
  from projection_formula [OF y v l, of "V2 683 372"] y show ?thesis
    by (simp add: sqrt25)
qed

lemma projection_error: "projection v cam ctr = Inl e \<Longrightarrow> e = ZeroDivisionError"
  by (simp add: projection_def Let_def split: if_splits)

lemma convert_points_error: "convert_points vs cam ctr = Inl e \<Longrightarrow> e = ZeroDivisionError"
  by (induction vs arbitrary: e) (auto split: sum.splits dest: projection_error)

text \<open>No reachable shape has the attribute \<open>faces\<close>.\<close>

lemma optimise_faces: "faces (fst (optimise s)) = faces s"
  by (simp add: optimise_eq split: sum.splits)

lemma transform_faces: "faces (fst (transform m s)) = faces s"
  by (simp add: transform_def Let_def optimise_faces)

lemma move_to_faces: "faces (move_to p s) = faces s"
  by (cases "points s") (simp_all add: move_to_def)

lemma add_shapes_faces: "add_shapes shapes self = Inr s \<Longrightarrow> faces s = faces self"
  by (induction shapes arbitrary: self) (auto split: sum.splits)

lemma Shape_init_faces: "Shape_init c shift trans_m = Inr s \<Longrightarrow> faces s = None"
proof -
  assume a: "Shape_init c shift trans_m = Inr s"
  then have "s = fst (transform trans_m (move_to shift (reset c)))"
    by (auto simp: Shape_init_def split: prod.splits option.splits)
  then show ?thesis
    by (simp add: transform_faces move_to_faces reset_def)
qed

lemma ShapeCombination_init_faces:
  assumes "ShapeCombination_init shapes shift trans_m = Inr s"
  shows "faces s = None"
proof -
  from assms obtain s0 where a: "add_shapes shapes (reset Shape) = Inr s0"
    and s: "s = fst (optimise (fst (transform trans_m (move_to shift s0))))"
    by (auto simp: ShapeCombination_init_def split: sum.splits prod.splits option.splits)
  from add_shapes_faces [OF a] have "faces s0 = None"
    by (simp add: reset_def)
  then show ?thesis
    by (simp add: s optimise_faces transform_faces move_to_faces)
qed

lemma reachable_no_faces: "reachable s \<Longrightarrow> faces s = None"
proof (induction rule: reachable.induct)
  case (reachable_init c shift trans_m s)
  then show ?case by (rule Shape_init_faces)
next
  case (reachable_combination shapes shift trans_m s)
  then show ?case by (auto intro: ShapeCombination_init_faces)
next
  case (reachable_move_to s p)
  then show ?case by (simp add: move_to_faces)
next
  case (reachable_move_by s p)
  then show ?case by (simp add: move_by_def)
next
  case (reachable_transform s m s')
  then show ?case using transform_faces [of m s] by simp
next
  case (reachable_optimise s s')
  then show ?case using optimise_faces [of s] by simp
qed

text \<open>
  C4. The claim is that a draw cycle on a shape without face data skips the polygons and
  draws the lines. The code does not: on every window whose shape has no attribute
  \<open>faces\<close> (every reachable shape, by \<open>reachable_no_faces\<close>) the cycle ends with an
  exception, \<open>AttributeError\<close> from the face loop unless a projection has already raised
  \<open>ZeroDivisionError\<close>; no line is drawn.
\<close>

theorem draw_without_faces:
  assumes "faces (shape w) = None"
  shows "draw w = Inl AttributeError \<or> draw w = Inl ZeroDivisionError"
proof -
  obtain rad_x rad_z where m: "mouse_to_angles (mouse w) = (rad_x, rad_z)"
    by (cases "mouse_to_angles (mouse w)")
  show ?thesis
  proof (cases "convert_points (points (shape w)) (turn rad_x rad_z (camera w)) (centre w)")
    case (Inl e)
    then have "e = ZeroDivisionError"
      by (rule convert_points_error)
    with Inl show ?thesis
      by (simp add: draw_def m)
  next
    case (Inr converted_points)
    with assms show ?thesis
      by (simp add: draw_def m)
  qed
qed

theorem draw_without_faces_witness:
  "faces (shape (Window_init (reset Cube))) = None
   \<and> draw (Window_init (reset Cube)) = Inl AttributeError"
proof -
  have h: "faces (shape (Window_init (reset Cube))) = None"
    by (simp add: Window_init_def reset_def)
  have "draw (Window_init (reset Cube)) \<noteq> Inl ZeroDivisionError"
    by (simp add: draw_def Window_init_def mouse_to_angles_def turn_def Camera_init_def
        x_rotator_def z_rotator_def reset_def projection_def x_rotation_angle_def
        z_rotation_angle_def camera_x_def camera_y_def camera_z_def)
  with draw_without_faces [OF h] h show ?thesis
    by simp
qed

text \<open>
  C5. The claim is that both handlers treat a key outside \<open>KEY_BINDINGS\<close> as the zero
  vector. \<open>move_input\<close> does and leaves the window as it is; \<open>turn_input\<close> takes the
  tuple \<open>(0,0)\<close> as its default and raises \<open>TypeError\<close> when it multiplies it by
  \<open>pi/64\<close>.
\<close>

theorem unmapped_key:
  assumes "KEY_BINDINGS (event_char ev) = None" and "\<not> paused w" and "event_type ev = Key"
  shows "move_input ev w = Inr w \<and> turn_input ev w = Inl TypeError"
proof -
  have z: "Vector3_add (pos (camera w)) (V3 0 0 0) = pos (camera w)"
    by (cases "pos (camera w)") simp
  from assms show ?thesis
    by (simp add: move_input_def turn_input_def dict_get_def z)
qed

theorem unmapped_key_witness:
  "move_input \<lparr>event_type = Key, event_char = ''x'', event_x = 0, event_y = 0\<rparr>
      (Window_init (reset Cube)) = Inr (Window_init (reset Cube))
   \<and> turn_input \<lparr>event_type = Key, event_char = ''x'', event_x = 0, event_y = 0\<rparr>
      (Window_init (reset Cube)) = Inl TypeError"
proof -
  let ?ev = "\<lparr>event_type = Key, event_char = ''x'', event_x = 0, event_y = 0\<rparr>"
  have a: "KEY_BINDINGS (event_char ?ev) = None"
    by (simp add: KEY_BINDINGS_def)
  have b: "\<not> paused (Window_init (reset Cube))"
    by (simp add: Window_init_def)
  have c: "event_type ?ev = Key"
    by simp
  from unmapped_key [OF a b c] show ?thesis .
qed

end
